theory Spec2Isabelle
  imports Complex_Main "HOL-Library.AList"
begin

section \<open>SfMLocalizer: robust resection and pose refinement\<close>

text \<open>
  A shallow embedding of \<^verbatim>\<open>SfMLocalizer::Localize\<close> and
  \<^verbatim>\<open>SfMLocalizer::RefinePose\<close> of
  \<^verbatim>\<open>src/aliceVision/sfm/pipeline/localization/SfMLocalizer.cpp\<close>.
  The robust estimators, the support check, the matrix decomposition and the bundle
  adjustment live in other translation units: they are the fields of a record of
  collaborators, and every theorem holds for all of them. What the two functions
  themselves do (branching, argument preparation, write-backs, early returns, the
  exception) is modelled in full.
\<close>

subsection \<open>Numbers, vectors, matrices\<close>

text \<open>
  A \<^verbatim>\<open>double\<close> is a finite value, one of the two infinities, or a NaN. No rounding
  is modelled: every arithmetic operation that rounds is a collaborator.
\<close>

datatype double = Finite real | PosInf | NegInf | NaN

text \<open>\<^verbatim>\<open>std::numeric_limits<double>::infinity()\<close>\<close>

definition infinity :: double where
  "infinity = PosInf"

text \<open>The operator \<^verbatim>\<open>==\<close> on doubles: a NaN equals nothing.\<close>

definition double_eq :: "double \<Rightarrow> double \<Rightarrow> bool" where
  "double_eq a b = (a \<noteq> NaN \<and> b \<noteq> NaN \<and> a = b)"

text \<open>Unary minus on a double flips the sign and does not round.\<close>

fun double_neg :: "double \<Rightarrow> double" where
  "double_neg (Finite x) = Finite (- x)"
| "double_neg PosInf = NegInf"
| "double_neg NegInf = PosInf"
| "double_neg NaN = NaN"

type_synonym Vec2 = "double \<times> double"
type_synonym Vec3 = "double \<times> double \<times> double"
type_synonym Vec4 = "double \<times> double \<times> double \<times> double"

text \<open>Fixed-size matrices are tuples of rows; a dynamic \<^verbatim>\<open>Mat\<close> of 2D or 3D points is the
  list of its columns.\<close>

type_synonym Mat3 = "Vec3 \<times> Vec3 \<times> Vec3"
type_synonym Mat34 = "Vec4 \<times> Vec4 \<times> Vec4"

text \<open>The coefficient \<^verbatim>\<open>M(0, 0)\<close>.\<close>

fun coeff00 :: "Mat3 \<Rightarrow> double" where
  "coeff00 ((a, _, _), _, _) = a"

text \<open>\<^verbatim>\<open>M.transpose()\<close>\<close>

fun transpose3 :: "Mat3 \<Rightarrow> Mat3" where
  "transpose3 ((a, b, c), (d, e, f), (g, h, i)) = ((a, d, g), (b, e, h), (c, f, i))"

text \<open>\<^verbatim>\<open>-M\<close>, coefficient by coefficient.\<close>

fun neg3 :: "Mat3 \<Rightarrow> Mat3" where
  "neg3 ((a, b, c), (d, e, f), (g, h, i)) =
     ((double_neg a, double_neg b, double_neg c),
      (double_neg d, double_neg e, double_neg f),
      (double_neg g, double_neg h, double_neg i))"

subsection \<open>The data of a localization\<close>

text \<open>\<^verbatim>\<open>geometry::Pose3(R, C)\<close>: a rotation and a camera center.\<close>

datatype Pose3 = Pose3 (rotation: Mat3) (center: Vec3)

text \<open>\<^verbatim>\<open>ImageLocalizerMatchData\<close>; a descriptor type is the number of its enumerator.\<close>

record ImageLocalizerMatchData =
  projection_matrix :: Mat34
  pt3D :: "Vec3 list"
  pt2D :: "Vec2 list"
  vec_descType :: "nat list"
  vec_inliers :: "nat list"
  error_max :: double
  max_iteration :: nat

text \<open>
  The part of a \<^verbatim>\<open>camera::Pinhole\<close> that \<^verbatim>\<open>Localize\<close> reads, through its
  const methods. \<^verbatim>\<open>dynamic_cast<const camera::Pinhole*>\<close> succeeds on the pinhole family
  and gives the null pointer on a null pointer and on every other camera model.
\<close>

record Pinhole =
  isValid :: bool
  have_disto :: bool
  get_ud_pixel :: "Vec2 \<Rightarrow> Vec2"
  K :: Mat3

datatype IntrinsicBase = PinholeFamily Pinhole | OtherModel

fun dynamic_cast_Pinhole :: "IntrinsicBase option \<Rightarrow> Pinhole option" where
  "dynamic_cast_Pinhole None = None"
| "dynamic_cast_Pinhole (Some (PinholeFamily c)) = Some c"
| "dynamic_cast_Pinhole (Some OtherModel) = None"

text \<open>
  \<^verbatim>\<open>robustEstimation::ERobustEstimator\<close>: the two enumerators the switch names, and any
  other value of the enumeration by its number.
\<close>

datatype ERobustEstimator = E_ACRANSAC | E_LORANSAC | E_Other nat

text \<open>The solvers, and the kernels by the arguments of their constructors.\<close>

datatype SolverType = SixPointResectionSolver | P3PSolver

text \<open>
  Modelled from the spec: \<^verbatim>\<open>SolverType::MINIMUM_SAMPLES\<close> is declared with the solvers,
  outside this file; the 6-point solver needs 6 correspondences and the 3-point
  perspective solver needs 3.
\<close>

fun MINIMUM_SAMPLES :: "SolverType \<Rightarrow> nat" where
  "MINIMUM_SAMPLES SixPointResectionSolver = 6"
| "MINIMUM_SAMPLES P3PSolver = 3"

datatype KernelType =
    ACKernelAdaptorResection SolverType "Vec2 list" nat nat "Vec3 list"
  | ACKernelAdaptorResection_K SolverType "Vec2 list" "Vec3 list" Mat3
  | KernelAdaptorResectionLORansac_K SolverType SolverType "Vec2 list" "Vec3 list" Mat3

text \<open>The 2D observations, the 3D points and the hypothesis solver a kernel was built on.\<close>

fun kernel_pt2D :: "KernelType \<Rightarrow> Vec2 list" where
  "kernel_pt2D (ACKernelAdaptorResection _ x _ _ _) = x"
| "kernel_pt2D (ACKernelAdaptorResection_K _ x _ _) = x"
| "kernel_pt2D (KernelAdaptorResectionLORansac_K _ _ x _ _) = x"

fun kernel_pt3D :: "KernelType \<Rightarrow> Vec3 list" where
  "kernel_pt3D (ACKernelAdaptorResection _ _ _ _ X) = X"
| "kernel_pt3D (ACKernelAdaptorResection_K _ _ X _) = X"
| "kernel_pt3D (KernelAdaptorResectionLORansac_K _ _ _ X _) = X"

fun kernel_solver :: "KernelType \<Rightarrow> SolverType" where
  "kernel_solver (ACKernelAdaptorResection s _ _ _ _) = s"
| "kernel_solver (ACKernelAdaptorResection_K s _ _ _) = s"
| "kernel_solver (KernelAdaptorResectionLORansac_K s _ _ _ _) = s"

text \<open>\<^verbatim>\<open>robustEstimation::ScoreEvaluator<KernelType> scorer(threshold)\<close>\<close>

datatype ScoreEvaluator = ScoreEvaluator (threshold: double)

text \<open>
  The calls \<^verbatim>\<open>Localize\<close> makes to a robust estimator, with their arguments: the
  model records them next to the result, so that a theorem can say what an estimator
  was given.
\<close>

datatype estimator_call =
    Call_ACRANSAC KernelType nat double bool
  | Call_LO_RANSAC KernelType ScoreEvaluator

fun call_kernel :: "estimator_call \<Rightarrow> KernelType" where
  "call_kernel (Call_ACRANSAC k _ _ _) = k"
| "call_kernel (Call_LO_RANSAC k _) = k"

subsection \<open>The collaborators of Localize\<close>

text \<open>
  \<^item> \<open>Square\<close>: \<^verbatim>\<open>Square(x)\<close> of the numeric helpers;
  \<^item> \<open>double_times\<close>: the operator \<^verbatim>\<open>*\<close> on doubles;
  \<^item> \<open>ACRANSAC\<close>: kernel, iteration budget, upper bound of the precision and verbosity
    to the inliers it leaves in \<^verbatim>\<open>vec_inliers\<close> (empty at the call), the matrix
    \<^verbatim>\<open>P\<close> holds after the call (declared without a value before it) and the pair it
    returns;
  \<^item> \<open>LO_RANSAC\<close>: kernel and scorer to the matrix it returns and the inliers it leaves
    in \<^verbatim>\<open>vec_inliers\<close>;
  \<^item> \<open>normalizer2\<close>: the method of the kernel;
  \<^item> \<open>hasStrongSupport\<close>: inliers, descriptor types and minimum sample size to the verdict;
  \<^item> \<open>KRt_From_P\<close>: the decomposition, giving \<open>(K, R, t)\<close>;
  \<^item> \<open>product\<close>: the product of a 3x3 matrix and a 3-vector;
  \<^item> \<open>uninitialized\<close>: what a column of a freshly allocated \<^verbatim>\<open>Mat2X\<close> holds.
\<close>

record collaborators =
  Square :: "double \<Rightarrow> double"
  double_times :: "double \<Rightarrow> double \<Rightarrow> double"
  ACRANSAC :: "KernelType \<Rightarrow> nat \<Rightarrow> double \<Rightarrow> bool \<Rightarrow> nat list \<times> Mat34 \<times> (double \<times> double)"
  LO_RANSAC :: "KernelType \<Rightarrow> ScoreEvaluator \<Rightarrow> Mat34 \<times> nat list"
  normalizer2 :: "KernelType \<Rightarrow> Mat3"
  hasStrongSupport :: "nat list \<Rightarrow> nat list \<Rightarrow> nat \<Rightarrow> bool"
  KRt_From_P :: "Mat34 \<Rightarrow> Mat3 \<times> Mat3 \<times> Vec3"
  product :: "Mat3 \<Rightarrow> Vec3 \<Rightarrow> Vec3"
  uninitialized :: Vec2

subsection \<open>Localize\<close>

datatype error = RuntimeError string | OutOfRange | UndefinedBehaviour

text \<open>
  What a call leaves behind: \<open>returned\<close> is the value returned or the exception thrown,
  \<open>resectionData\<close> and \<open>pose\<close> are the caller's two objects after the call, \<open>calls\<close> the
  estimator calls made, and \<open>minimumSamples\<close> the local variable of that name.
\<close>

record localized =
  returned :: "error + bool"
  resectionData :: ImageLocalizerMatchData
  pose :: Pose3
  calls :: "estimator_call list"
  minimumSamples :: nat

text \<open>
  Lines 81 to 84, the loop over \<^verbatim>\<open>iPoint\<close> that fills \<^verbatim>\<open>pt2Dundistorted\<close> column by
  column.
\<close>

function undistort_loop :: "Pinhole \<Rightarrow> Vec2 list \<Rightarrow> nat \<Rightarrow> nat \<Rightarrow> Vec2 list \<Rightarrow> Vec2 list" where
  "undistort_loop pinholeCam pts numPts iPoint pt2Dundistorted =
     (if iPoint < numPts
      then undistort_loop pinholeCam pts numPts (Suc iPoint)
             (pt2Dundistorted[iPoint := get_ud_pixel pinholeCam (pts ! iPoint)])
      else pt2Dundistorted)"
  by pat_completeness auto
termination
  by (relation "measure (\<lambda>(c, pts, numPts, iPoint, out). numPts - iPoint)") auto

declare undistort_loop.simps [simp del]

text \<open>
  Lines 75 to 85: the local matrix \<^verbatim>\<open>pt2Dundistorted\<close>, empty when the camera has no
  distortion.
\<close>

definition undistorted :: "collaborators \<Rightarrow> Pinhole \<Rightarrow> ImageLocalizerMatchData \<Rightarrow> Vec2 list" where
  "undistorted env pinholeCam rd =
     (if have_disto pinholeCam
      then (let numPts = length (pt2D rd)
            in undistort_loop pinholeCam (pt2D rd) numPts 0 (replicate numPts (uninitialized env)))
      else [])"

text \<open>
  Lines 153 to 177: the support check, the write-back of the matrix and of the pose,
  the return.
\<close>

definition conclude ::
  "collaborators \<Rightarrow> ImageLocalizerMatchData \<Rightarrow> Pose3 \<Rightarrow> Mat34 \<Rightarrow> nat \<Rightarrow> estimator_call list \<Rightarrow> localized" where
  "conclude env rd pose0 P minSamples cs =
     (let resection = hasStrongSupport env (vec_inliers rd) (vec_descType rd) minSamples
      in if resection
         then (case KRt_From_P env P of (Kc, R, t) \<Rightarrow>
                 \<lparr>returned = Inr resection,
                  resectionData = rd\<lparr>projection_matrix := P\<rparr>,
                  pose = Pose3 R (product env (neg3 (transpose3 R)) t),
                  calls = cs, minimumSamples = minSamples\<rparr>)
         else \<lparr>returned = Inr resection, resectionData = rd, pose = pose0,
               calls = cs, minimumSamples = minSamples\<rparr>)"

text \<open>Lines 33 to 178.\<close>

definition Localize ::
  "collaborators \<Rightarrow> nat \<times> nat \<Rightarrow> IntrinsicBase option \<Rightarrow> ImageLocalizerMatchData \<Rightarrow> Pose3 \<Rightarrow>
     ERobustEstimator \<Rightarrow> localized" where
  "Localize env imageSize optionalIntrinsics resectionData0 pose0 estimator =
     (let rd = resectionData0\<lparr>vec_inliers := []\<rparr>;
          precision = (if double_eq (error_max rd) infinity then infinity
                       else Square env (error_max rd));
          pinholeCam = dynamic_cast_Pinhole optionalIntrinsics
      in if pinholeCam = None \<or> \<not> isValid (the pinholeCam)
         then
           (let minSamples = MINIMUM_SAMPLES SixPointResectionSolver;
                kernel = ACKernelAdaptorResection SixPointResectionSolver
                           (pt2D rd) (fst imageSize) (snd imageSize) (pt3D rd);
                c = Call_ACRANSAC kernel (max_iteration rd) precision True
            in case ACRANSAC env kernel (max_iteration rd) precision True of
                 (inliers, P, ACRansacOut) \<Rightarrow>
                   conclude env (rd\<lparr>vec_inliers := inliers, error_max := fst ACRansacOut\<rparr>)
                     pose0 P minSamples [c])
         else
           (let cam = the pinholeCam;
                pt2Dundistorted = undistorted env cam rd;
                hasDistortion = have_disto cam
            in case estimator of
                 E_ACRANSAC \<Rightarrow>
                   (let minSamples = MINIMUM_SAMPLES P3PSolver;
                        kernel = ACKernelAdaptorResection_K P3PSolver
                                   (if hasDistortion then pt2Dundistorted else pt2D rd)
                                   (pt3D rd) (K cam);
                        c = Call_ACRANSAC kernel (max_iteration rd) precision True
                    in case ACRANSAC env kernel (max_iteration rd) precision True of
                         (inliers, P, ACRansacOut) \<Rightarrow>
                           conclude env
                             (rd\<lparr>vec_inliers := inliers, error_max := fst ACRansacOut\<rparr>)
                             pose0 P minSamples [c])
               | E_LORANSAC \<Rightarrow>
                   (let rd1 = (if double_eq (error_max rd) infinity
                               then rd\<lparr>error_max := Finite 4\<rparr> else rd);
                        minSamples = MINIMUM_SAMPLES P3PSolver;
                        kernel = KernelAdaptorResectionLORansac_K P3PSolver SixPointResectionSolver
                                   (if hasDistortion then pt2Dundistorted else pt2D rd1)
                                   (pt3D rd1) (K cam);
                        thr = double_times env (double_times env (error_max rd1) (error_max rd1))
                                (double_times env (coeff00 (normalizer2 env kernel))
                                           (coeff00 (normalizer2 env kernel)));
                        scorer = ScoreEvaluator thr;
                        c = Call_LO_RANSAC kernel scorer
                    in case LO_RANSAC env kernel scorer of
                         (P, inliers) \<Rightarrow>
                           conclude env (rd1\<lparr>vec_inliers := inliers\<rparr>) pose0 P minSamples [c])
               | E_Other n \<Rightarrow>
                   \<lparr>returned = Inl (RuntimeError
                      ''[SfMLocalizer::localize] Only ACRansac and LORansac are supported!''),
                    resectionData = rd, pose = pose0, calls = [], minimumSamples = 0\<rparr>))"

subsection \<open>The store of intrinsics objects\<close>

text \<open>
  \<^verbatim>\<open>RefinePose\<close> receives a pointer to the caller's intrinsics and works on a second
  object, so objects live in a store: an association list from addresses to the state
  of the object there. The address 0 is the null pointer; no object lives at it.
\<close>

type_synonym addr = nat
type_synonym 'i store = "(addr \<times> 'i) list"

text \<open>An address above every address in use.\<close>

definition fresh :: "'i store \<Rightarrow> addr" where
  "fresh h = Suc (fold max (map fst h) 0)"

text \<open>\<^verbatim>\<open>new T(v)\<close>: an object at an address that was not in use.\<close>

definition new :: "'i store \<Rightarrow> 'i \<Rightarrow> 'i store \<times> addr" where
  "new h v = (AList.update (fresh h) v h, fresh h)"

text \<open>
  Modelled from the spec: \<^verbatim>\<open>IntrinsicBase::clone\<close> is declared with the camera models,
  outside this file; it gives a copy of the intrinsics in an object of its own, which
  the caller of \<^verbatim>\<open>clone\<close> owns. Calling it through a pointer to no object is undefined
  (\<open>None\<close>).
\<close>

definition clone :: "'i store \<Rightarrow> addr \<Rightarrow> ('i store \<times> addr) option" where
  "clone h p = (case map_of h p of None \<Rightarrow> None | Some v \<Rightarrow> Some (new h v))"

text \<open>The last \<^verbatim>\<open>shared_ptr\<close> to an object goes out of scope: the object is deleted.\<close>

definition release :: "'i store \<Rightarrow> addr \<Rightarrow> 'i store" where
  "release h p = AList.delete p h"

subsection \<open>The tiny scene\<close>

text \<open>\<^verbatim>\<open>sfmData::View(imagePath, viewId, intrinsicId, poseId)\<close>\<close>

record View =
  imagePath :: string
  viewId :: nat
  intrinsicId :: nat
  poseId :: nat

text \<open>\<^verbatim>\<open>sfmData::CameraPose(transform)\<close>; \<^verbatim>\<open>getTransform()\<close> reads it back.\<close>

datatype CameraPose = CameraPose (getTransform: Pose3)

text \<open>\<^verbatim>\<open>sfmData::Observation(x, id_feat)\<close>\<close>

datatype Observation = Observation Vec2 nat

text \<open>A landmark: its position and its observations by view id.\<close>

record Landmark =
  X :: Vec3
  observations :: "(nat \<times> Observation) list"

text \<open>
  \<^verbatim>\<open>sfmData::SfMData\<close>: the four containers \<^verbatim>\<open>RefinePose\<close> fills, each an association
  list by id. The scene holds its intrinsics by (shared) pointer.
\<close>

record SfMData =
  views :: "(nat \<times> View) list"
  poses :: "(nat \<times> CameraPose) list"
  intrinsics :: "(nat \<times> addr) list"
  "structure" :: "(nat \<times> Landmark) list"

definition empty_scene :: SfMData where
  "empty_scene = \<lparr>views = [], poses = [], intrinsics = [], structure = []\<rparr>"

text \<open>\<^verbatim>\<open>m.insert(std::make_pair(k, v))\<close> leaves an existing entry alone.\<close>

definition map_insert :: "'k \<Rightarrow> 'v \<Rightarrow> ('k \<times> 'v) list \<Rightarrow> ('k \<times> 'v) list" where
  "map_insert k v m = (case map_of m k of None \<Rightarrow> m @ [(k, v)] | Some _ \<Rightarrow> m)"

text \<open>
  Modelled from the spec: \<^verbatim>\<open>SfMData::setPose\<close> and \<^verbatim>\<open>SfMData::getPose\<close> are declared
  with the scene container, outside this file; the scene holds one pose entry bound to
  the view, under the view's pose id. Reading the pose of a view that has none throws.
\<close>

definition setPose :: "SfMData \<Rightarrow> View \<Rightarrow> CameraPose \<Rightarrow> SfMData" where
  "setPose s v p = s\<lparr>poses := AList.update (poseId v) p (poses s)\<rparr>"

definition getPose :: "SfMData \<Rightarrow> View \<Rightarrow> error + CameraPose" where
  "getPose s v = (case map_of (poses s) (poseId v) of None \<Rightarrow> Inl OutOfRange | Some p \<Rightarrow> Inr p)"

text \<open>The parameter groups of \<^verbatim>\<open>BA_Refine\<close>; a mask is the set of its groups.\<close>

datatype BA_Refine = BA_REFINE_ROTATION | BA_REFINE_TRANSLATION | BA_REFINE_INTRINSICS_ALL

subsection \<open>The collaborators of RefinePose\<close>

text \<open>
  \<^item> \<open>Adjust\<close>: \<^verbatim>\<open>BundleAdjustmentCeres::Adjust\<close>, from the scene, the objects the scene
    points to and the mask, to its status, the scene and those objects afterwards;
  \<^item> \<open>assign\<close>: \<^verbatim>\<open>IntrinsicBase::assign\<close>, from the state of the object assigned to and
    the state of the object assigned from, to the new state of the former;
  \<^item> \<open>UndefinedIndexT\<close>: the constant of that name.
\<close>

record 'i refiner =
  Adjust :: "SfMData \<Rightarrow> 'i store \<Rightarrow> BA_Refine set \<Rightarrow> bool \<times> SfMData \<times> 'i store"
  assign :: "'i \<Rightarrow> 'i \<Rightarrow> 'i"
  UndefinedIndexT :: nat

text \<open>
  The call of \<open>Adjust\<close> on a scene: the refiner reaches the intrinsics objects the scene
  points to and no other object of the store. It may rewrite the state of those
  objects; the objects stay where they are.
\<close>

definition reachable :: "SfMData \<Rightarrow> addr list" where
  "reachable s = map snd (intrinsics s)"

definition merge_back :: "'i store \<Rightarrow> addr list \<Rightarrow> 'i store \<Rightarrow> 'i store" where
  "merge_back h as hA =
     map (\<lambda>(a, v). if a \<in> set as
                    then (a, case map_of hA a of None \<Rightarrow> v | Some w \<Rightarrow> w)
                    else (a, v)) h"

definition call_Adjust ::
  "'i refiner \<Rightarrow> SfMData \<Rightarrow> 'i store \<Rightarrow> BA_Refine set \<Rightarrow> bool \<times> SfMData \<times> 'i store" where
  "call_Adjust env s h opts =
     (case Adjust env s (AList.restrict (set (reachable s)) h) opts of
        (st, s', hA) \<Rightarrow> (st, s', merge_back h (reachable s) hA))"

subsection \<open>RefinePose\<close>

text \<open>
  Lines 201 to 208, the loop over \<^verbatim>\<open>i\<close> that fills \<^verbatim>\<open>tinyScene.structure\<close>. Reading a
  column that the matrix does not have is undefined.
\<close>

function structure_loop ::
  "'i refiner \<Rightarrow> ImageLocalizerMatchData \<Rightarrow> nat \<Rightarrow> (nat \<times> Landmark) list \<Rightarrow>
     error + (nat \<times> Landmark) list" where
  "structure_loop env matchingData i st =
     (if i < length (vec_inliers matchingData)
      then (let idx = vec_inliers matchingData ! i
            in if idx < length (pt3D matchingData) \<and> idx < length (pt2D matchingData)
               then structure_loop env matchingData (Suc i)
                      (AList.update i
                         \<lparr>X = pt3D matchingData ! idx,
                          observations = AList.update 0
                            (Observation (pt2D matchingData ! idx) (UndefinedIndexT env)) []\<rparr>
                         st)
               else Inl UndefinedBehaviour)
      else Inr st)"
  by pat_completeness auto
termination
  by (relation "measure (\<lambda>(env, md, i, st). length (vec_inliers md) - i)") auto

declare structure_loop.simps [simp del]

text \<open>Line 190: the view, with id, intrinsic id and pose id 0.\<close>

definition the_view :: View where
  "the_view = \<lparr>imagePath = [], viewId = 0, intrinsicId = 0, poseId = 0\<rparr>"

text \<open>
  Lines 186 to 208: the scene, the store with the clone in it, and the address of the
  clone (\<^verbatim>\<open>localIntrinsics\<close>).
\<close>

definition build_tinyScene ::
  "'i refiner \<Rightarrow> 'i store \<Rightarrow> addr \<Rightarrow> Pose3 \<Rightarrow> ImageLocalizerMatchData \<Rightarrow>
     error + (SfMData \<times> 'i store \<times> addr)" where
  "build_tinyScene env h intrinsicsPtr pose0 matchingData =
     (let s1 = empty_scene\<lparr>views := map_insert 0 the_view (views empty_scene)\<rparr>;
          s2 = setPose s1 the_view (CameraPose pose0)
      in case clone h intrinsicsPtr of
           None \<Rightarrow> Inl UndefinedBehaviour
         | Some (h1, localIntrinsics) \<Rightarrow>
             (let s3 = s2\<lparr>intrinsics := AList.update 0 localIntrinsics (intrinsics s2)\<rparr>
              in case structure_loop env matchingData 0 (structure s3) of
                   Inl e \<Rightarrow> Inl e
                 | Inr st \<Rightarrow> Inr (s3\<lparr>structure := st\<rparr>, h1, localIntrinsics)))"

text \<open>
  What a call leaves behind: \<open>outcome\<close> is the value returned or the way the call
  failed, \<open>objects\<close> the store and \<open>pose_out\<close> the caller's pose after the call;
  \<open>adjusted\<close> holds the arguments of the call of the refiner (the scene
  \<^verbatim>\<open>tinyScene\<close>, the objects it points to, the mask) and \<open>baStatus\<close> what the refiner
  answered (\<open>None\<close> when the call did not get that far). After undefined behaviour
  (a pointer to no object, an inlier index that is no column) nothing is known of the
  caller's state: the model leaves it as it was, and no property below speaks of it.
\<close>

record 'i refined =
  outcome :: "error + bool"
  objects :: "'i store"
  pose_out :: Pose3
  adjusted :: "(SfMData \<times> 'i store \<times> BA_Refine set) option"
  baStatus :: "bool option"

text \<open>Lines 180 to 229.\<close>

definition RefinePose ::
  "'i refiner \<Rightarrow> 'i store \<Rightarrow> addr \<Rightarrow> Pose3 \<Rightarrow> ImageLocalizerMatchData \<Rightarrow> bool \<Rightarrow> bool \<Rightarrow>
     'i refined" where
  "RefinePose env h intrinsicsPtr pose0 matchingData refinePose refineIntrinsic =
     (case build_tinyScene env h intrinsicsPtr pose0 matchingData of
        Inl e \<Rightarrow> \<lparr>outcome = Inl e, objects = h, pose_out = pose0,
                  adjusted = None, baStatus = None\<rparr>
      | Inr (scene, h1, localIntrinsics) \<Rightarrow>
          (let refineOptions =
                 (if refinePose then {BA_REFINE_ROTATION, BA_REFINE_TRANSLATION} else {})
                 \<union> (if refineIntrinsic then {BA_REFINE_INTRINSICS_ALL} else {});
               seen = AList.restrict (set (reachable scene)) h1
           in case call_Adjust env scene h1 refineOptions of
                (status, scene', h2) \<Rightarrow>
                  if \<not> status
                  then \<lparr>outcome = Inr False, objects = release h2 localIntrinsics,
                        pose_out = pose0, adjusted = Some (scene, seen, refineOptions),
                        baStatus = Some status\<rparr>
                  else (case getPose scene' the_view of
                          Inl e \<Rightarrow>
                            \<lparr>outcome = Inl e, objects = release h2 localIntrinsics,
                             pose_out = pose0, adjusted = Some (scene, seen, refineOptions),
                             baStatus = Some status\<rparr>
                        | Inr p \<Rightarrow>
                            (let h3 = (if refineIntrinsic
                                       then (case (map_of h2 intrinsicsPtr,
                                                   map_of h2 localIntrinsics) of
                                               (Some v, Some w) \<Rightarrow>
                                                 AList.update intrinsicsPtr (assign env v w) h2
                                             | _ \<Rightarrow> h2)
                                       else h2)
                             in \<lparr>outcome = Inr True, objects = release h3 localIntrinsics,
                                 pose_out = getTransform p,
                                 adjusted = Some (scene, seen, refineOptions),
                                 baStatus = Some status\<rparr>))))"

subsection \<open>Notions the statements use\<close>

text \<open>
  The calibrated path is taken when the intrinsics are of the pinhole family and valid:
  the negation of the test of line 54.
\<close>

definition calibrated :: "IntrinsicBase option \<Rightarrow> bool" where
  "calibrated oi = (case dynamic_cast_Pinhole oi of None \<Rightarrow> False | Some c \<Rightarrow> isValid c)"

text \<open>
  Lines 46 to 49: the upper bound of the precision handed to \<^verbatim>\<open>ACRANSAC\<close>.
\<close>

definition precision_bound :: "collaborators \<Rightarrow> ImageLocalizerMatchData \<Rightarrow> double" where
  "precision_bound env rd =
     (if double_eq (error_max rd) infinity then infinity else Square env (error_max rd))"

text \<open>
  The matrix an estimator call leaves in \<^verbatim>\<open>P\<close>.
\<close>

fun fitted :: "collaborators \<Rightarrow> estimator_call \<Rightarrow> Mat34" where
  "fitted env (Call_ACRANSAC k it pr v) = fst (snd (ACRANSAC env k it pr v))"
| "fitted env (Call_LO_RANSAC k s) = fst (LO_RANSAC env k s)"

text \<open>
  The exception of line 149.
\<close>

abbreviation (input) "unsupported \<equiv> RuntimeError ''[SfMLocalizer::localize] Only ACRansac and LORansac are supported!''"

subsection \<open>A concrete localization\<close>

text \<open>
  Three correspondences, a camera with a distortion that mirrors the first coordinate,
  and collaborators that compute: the estimators keep all three correspondences and fit
  a translation by 5 along the optical axis, the support check asks for as many inliers
  as the minimum sample size.
\<close>

definition example_P :: Mat34 where
  "example_P = ((Finite 1, Finite 0, Finite 0, Finite 0),
                (Finite 0, Finite 1, Finite 0, Finite 0),
                (Finite 0, Finite 0, Finite 1, Finite 5))"

definition identity3 :: Mat3 where
  "identity3 = ((Finite 1, Finite 0, Finite 0),
                (Finite 0, Finite 1, Finite 0),
                (Finite 0, Finite 0, Finite 1))"

fun example_times :: "double \<Rightarrow> double \<Rightarrow> double" where
  "example_times (Finite a) (Finite b) = Finite (a * b)"
| "example_times _ _ = NaN"

definition example_env :: collaborators where
  "example_env =
     \<lparr>Square = (\<lambda>a. example_times a a),
      double_times = example_times,
      ACRANSAC = (\<lambda>k it pr v. ([0, 1, 2], example_P, (Finite 2, Finite 0))),
      LO_RANSAC = (\<lambda>k s. (example_P, [0, 1, 2])),
      normalizer2 = (\<lambda>k. identity3),
      hasStrongSupport = (\<lambda>inl tags m. m \<le> length inl),
      KRt_From_P = (\<lambda>P. (identity3, identity3, (Finite 0, Finite 0, Finite 5))),
      product = (\<lambda>M v. case (M, v) of (((a, _, _), (_, b, _), (_, _, c)), (x, y, z)) \<Rightarrow>
                   (example_times a x, example_times b y, example_times c z)),
      uninitialized = (NaN, NaN)\<rparr>"

definition example_data :: ImageLocalizerMatchData where
  "example_data =
     \<lparr>projection_matrix = ((NaN, NaN, NaN, NaN), (NaN, NaN, NaN, NaN), (NaN, NaN, NaN, NaN)),
      pt3D = [(Finite 0, Finite 0, Finite 5), (Finite 1, Finite 0, Finite 5), (Finite 0, Finite 1, Finite 5)],
      pt2D = [(Finite 0, Finite 0), (Finite 1, Finite 0), (Finite 0, Finite 1)],
      vec_descType = [1, 1, 2],
      vec_inliers = [7],
      error_max = PosInf,
      max_iteration = 4096\<rparr>"

definition example_pose :: Pose3 where
  "example_pose = Pose3 identity3 (Finite 1, Finite 1, Finite 1)"

definition example_camera :: Pinhole where
  "example_camera =
     \<lparr>isValid = True, have_disto = True,
      get_ud_pixel = (\<lambda>(u, v). (double_neg u, v)),
      K = identity3\<rparr>"

subsection \<open>Notions the statements on RefinePose use\<close>

text \<open>
  The landmark the loop stores under key \<open>i\<close>: the 3D point of the \<open>i\<close>-th inlier and
  its 2D point as the one observation, in view 0.
\<close>

definition landmark_of :: "'i refiner \<Rightarrow> ImageLocalizerMatchData \<Rightarrow> nat \<Rightarrow> Landmark" where
  "landmark_of env md i =
     \<lparr>X = pt3D md ! (vec_inliers md ! i),
      observations = [(0, Observation (pt2D md ! (vec_inliers md ! i)) (UndefinedIndexT env))]\<rparr>"

text \<open>
  Every inlier index is a column of both point matrices.
\<close>

definition inliers_in_range :: "ImageLocalizerMatchData \<Rightarrow> bool" where
  "inliers_in_range md =
     list_all (\<lambda>idx. idx < length (pt3D md) \<and> idx < length (pt2D md)) (vec_inliers md)"

text \<open>
  The scene of lines 186 to 208 in closed form, with the clone at address \<open>a\<close>.
\<close>

definition scene_of :: "'i refiner \<Rightarrow> addr \<Rightarrow> Pose3 \<Rightarrow> ImageLocalizerMatchData \<Rightarrow> SfMData" where
  "scene_of env a pose0 md =
     \<lparr>views = [(0, the_view)], poses = [(0, CameraPose pose0)], intrinsics = [(0, a)],
      structure = map (\<lambda>j. (j, landmark_of env md j)) [0..<length (vec_inliers md)]\<rparr>"

text \<open>
  Lines 211 to 216: the mask.
\<close>

definition refine_mask :: "bool \<Rightarrow> bool \<Rightarrow> BA_Refine set" where
  "refine_mask refinePose refineIntrinsic =
     (if refinePose then {BA_REFINE_ROTATION, BA_REFINE_TRANSLATION} else {})
     \<union> (if refineIntrinsic then {BA_REFINE_INTRINSICS_ALL} else {})"

text \<open>
  The state of the clone at address \<open>a\<close> once the refiner has run on the scene: what
  the refiner left there, or the copy \<open>v\<close> if it left nothing.
\<close>

definition after_Adjust :: "'i refiner \<Rightarrow> SfMData \<Rightarrow> addr \<Rightarrow> 'i \<Rightarrow> BA_Refine set \<Rightarrow> 'i" where
  "after_Adjust env scene a v opts =
     (case map_of (snd (snd (Adjust env scene [(a, v)] opts))) a of None \<Rightarrow> v | Some w \<Rightarrow> w)"

subsection \<open>A concrete refinement\<close>

text \<open>
  Two intrinsics objects, each a focal length; the caller points to the first. The
  refiner replaces the pose and adds 1 to every focal length it reaches; the failing
  refiner adds 7 and reports failure.
\<close>

definition example_matches :: ImageLocalizerMatchData where
  "example_matches = example_data\<lparr>vec_inliers := [0, 2]\<rparr>"

definition example_pointer :: addr where
  "example_pointer = 1"

definition example_objects :: "nat store" where
  "example_objects = [(1, 100), (2, 200)]"

definition example_refiner :: "nat refiner" where
  "example_refiner =
     \<lparr>Adjust = (\<lambda>scene hs opts.
                  (True,
                   scene\<lparr>poses := map (\<lambda>(i, cp). (i, CameraPose (Pose3 identity3
                                    (Finite 0, Finite 0, Finite (- 5))))) (poses scene)\<rparr>,
                   map (\<lambda>(a, f). (a, f + 1)) hs)),
      assign = (\<lambda>this other. other),
      UndefinedIndexT = 4294967295\<rparr>"

definition example_failing_refiner :: "nat refiner" where
  "example_failing_refiner =
     example_refiner\<lparr>Adjust := (\<lambda>scene hs opts. (False, scene, map (\<lambda>(a, f). (a, f + 7)) hs))\<rparr>"

section \<open>Properties of Localize\<close>

subsection \<open>The undistortion loop\<close>

text \<open>
  The loop overwrites every column: whatever the fresh matrix held, the result is the
  undistorted counterpart of each input point, in order.
\<close>

lemma undistort_loop_inv:
  assumes "length out = n" "length pts = n" "i \<le> n"
    and "take i out = map (get_ud_pixel c) (take i pts)"
  shows "undistort_loop c pts n i out = map (get_ud_pixel c) pts"
  using assms
proof (induction c pts n i out rule: undistort_loop.induct)
  case (1 c pts n i out)
  show ?case
  proof (cases "i < n")
    case True
    let ?out = "out[i := get_ud_pixel c (pts ! i)]"
    have t: "take (Suc i) ?out = map (get_ud_pixel c) (take (Suc i) pts)"
      using True "1.prems" by (simp add: take_Suc_conv_app_nth)
    have "undistort_loop c pts n (Suc i) ?out = map (get_ud_pixel c) pts"
      using True "1.prems" t by (intro "1.IH") simp_all
    then show ?thesis using True by (subst undistort_loop.simps) simp
  next
    case False
    then have "i = n" using "1.prems" by simp
    then show ?thesis using "1.prems" by (subst undistort_loop.simps) simp
  qed
qed

lemma undistorted_map:
  "have_disto c \<Longrightarrow> undistorted env c rd = map (get_ud_pixel c) (pt2D rd)"
  by (simp add: undistorted_def Let_def undistort_loop_inv)

subsection \<open>The four paths\<close>

lemma conclude_returned:
  "returned (conclude env rd p P m cs) = Inr (hasStrongSupport env (vec_inliers rd) (vec_descType rd) m)"
  by (simp add: conclude_def Let_def split: prod.splits)

lemma conclude_calls: "calls (conclude env rd p P m cs) = cs"
  by (simp add: conclude_def Let_def split: prod.splits)

lemma conclude_minimumSamples: "minimumSamples (conclude env rd p P m cs) = m"
  by (simp add: conclude_def Let_def split: prod.splits)

lemma conclude_resectionData:
  "resectionData (conclude env rd p P m cs) =
     (if hasStrongSupport env (vec_inliers rd) (vec_descType rd) m
      then rd\<lparr>projection_matrix := P\<rparr> else rd)"
  by (simp add: conclude_def Let_def split: prod.splits)

lemma conclude_pose:
  "pose (conclude env rd p P m cs) =
     (if hasStrongSupport env (vec_inliers rd) (vec_descType rd) m
      then (case KRt_From_P env P of (Kc, R, t) \<Rightarrow> Pose3 R (product env (neg3 (transpose3 R)) t))
      else p)"
  by (simp add: conclude_def Let_def split: prod.splits)

lemmas conclude_simps = conclude_returned conclude_calls conclude_minimumSamples
  conclude_resectionData conclude_pose

lemma double_eq_infinity: "double_eq e infinity = (e = infinity)"
  by (auto simp add: double_eq_def infinity_def)

lemma calibrated_iff:
  "calibrated oi = (\<not> (dynamic_cast_Pinhole oi = None \<or> \<not> isValid (the (dynamic_cast_Pinhole oi))))"
  by (cases "dynamic_cast_Pinhole oi") (simp_all add: calibrated_def)

lemma calibratedE:
  assumes "calibrated oi"
  obtains cam where "dynamic_cast_Pinhole oi = Some cam" "isValid cam"
  using assms by (cases "dynamic_cast_Pinhole oi") (auto simp add: calibrated_def)

lemma not_calibrated_cases:
  assumes "\<not> (dynamic_cast_Pinhole oi = None \<or> \<not> isValid (the (dynamic_cast_Pinhole oi)))"
  obtains cam where "dynamic_cast_Pinhole oi = Some cam" "isValid cam"
  using assms by (cases "dynamic_cast_Pinhole oi") auto

lemma Localize_uncalibrated:
  assumes "dynamic_cast_Pinhole oi = None \<or> \<not> isValid (the (dynamic_cast_Pinhole oi))"
  shows "Localize env sz oi rd p est =
     (let rd0 = rd\<lparr>vec_inliers := []\<rparr>;
          precision = (if double_eq (error_max rd) infinity then infinity else Square env (error_max rd));
          kernel = ACKernelAdaptorResection SixPointResectionSolver (pt2D rd) (fst sz) (snd sz) (pt3D rd);
          out = ACRANSAC env kernel (max_iteration rd) precision True
      in conclude env (rd0\<lparr>vec_inliers := fst out, error_max := fst (snd (snd out))\<rparr>) p (fst (snd out)) 6
           [Call_ACRANSAC kernel (max_iteration rd) precision True])"
  using assms by (auto simp add: Localize_def Let_def split: prod.splits)

lemma Localize_calibrated_AC:
  assumes "dynamic_cast_Pinhole oi = Some cam" "isValid cam"
  shows "Localize env sz oi rd p E_ACRANSAC =
     (let rd0 = rd\<lparr>vec_inliers := []\<rparr>;
          precision = (if double_eq (error_max rd) infinity then infinity else Square env (error_max rd));
          kernel = ACKernelAdaptorResection_K P3PSolver
                     (if have_disto cam then map (get_ud_pixel cam) (pt2D rd) else pt2D rd) (pt3D rd) (K cam);
          out = ACRANSAC env kernel (max_iteration rd) precision True
      in conclude env (rd0\<lparr>vec_inliers := fst out, error_max := fst (snd (snd out))\<rparr>) p (fst (snd out)) 3
           [Call_ACRANSAC kernel (max_iteration rd) precision True])"
  using assms by (auto simp add: Localize_def Let_def undistorted_map split: prod.splits)

lemma Localize_calibrated_LO:
  assumes "dynamic_cast_Pinhole oi = Some cam" "isValid cam"
  shows "Localize env sz oi rd p E_LORANSAC =
     (let e = (if double_eq (error_max rd) infinity then Finite 4 else error_max rd);
          rd1 = rd\<lparr>vec_inliers := [], error_max := e\<rparr>;
          kernel = KernelAdaptorResectionLORansac_K P3PSolver SixPointResectionSolver
                     (if have_disto cam then map (get_ud_pixel cam) (pt2D rd) else pt2D rd) (pt3D rd) (K cam);
          n = coeff00 (normalizer2 env kernel);
          scorer = ScoreEvaluator (double_times env (double_times env e e) (double_times env n n));
          out = LO_RANSAC env kernel scorer
      in conclude env (rd1\<lparr>vec_inliers := snd out\<rparr>) p (fst out) 3 [Call_LO_RANSAC kernel scorer])"
  using assms by (auto simp add: Localize_def Let_def undistorted_map split: prod.splits)

lemma Localize_calibrated_other:
  assumes "dynamic_cast_Pinhole oi = Some cam" "isValid cam"
  shows "Localize env sz oi rd p (E_Other n) =
     \<lparr>returned = Inl (RuntimeError ''[SfMLocalizer::localize] Only ACRansac and LORansac are supported!''),
      resectionData = rd\<lparr>vec_inliers := []\<rparr>, pose = p, calls = [], minimumSamples = 0\<rparr>"
  using assms by (simp add: Localize_def Let_def)

subsection \<open>The concrete localization, evaluated\<close>

lemmas example_defs = example_env_def example_data_def example_pose_def example_camera_def
  example_P_def identity3_def

lemma example_uncalibrated:
  "Localize example_env (640, 480) None example_data example_pose (E_Other 2) =
     \<lparr>returned = Inr False,
      resectionData = example_data\<lparr>vec_inliers := [0, 1, 2], error_max := Finite 2\<rparr>,
      pose = example_pose,
      calls = [Call_ACRANSAC
                 (ACKernelAdaptorResection SixPointResectionSolver (pt2D example_data) 640 480
                    (pt3D example_data)) 4096 PosInf True],
      minimumSamples = 6\<rparr>"
  by (simp add: Localize_def Let_def conclude_def example_defs double_eq_def infinity_def)

lemma example_calibrated_other:
  "Localize example_env (640, 480) (Some (PinholeFamily example_camera)) example_data example_pose
     (E_Other 2) =
     \<lparr>returned = Inl unsupported,
      resectionData = example_data\<lparr>vec_inliers := []\<rparr>, pose = example_pose, calls = [],
      minimumSamples = 0\<rparr>"
  by (rule Localize_calibrated_other [where cam = example_camera])
     (simp_all add: example_camera_def)

lemma example_calibrated_LO:
  "Localize example_env (640, 480) (Some (PinholeFamily example_camera)) example_data example_pose
     E_LORANSAC =
     \<lparr>returned = Inr True,
      resectionData = example_data\<lparr>vec_inliers := [0, 1, 2], error_max := Finite 4,
                                    projection_matrix := example_P\<rparr>,
      pose = Pose3 identity3 (Finite 0, Finite 0, Finite (- 5)),
      calls = [Call_LO_RANSAC
                 (KernelAdaptorResectionLORansac_K P3PSolver SixPointResectionSolver
                    [(Finite 0, Finite 0), (Finite (- 1), Finite 0), (Finite 0, Finite 1)]
                    (pt3D example_data) identity3)
                 (ScoreEvaluator (Finite 16))],
      minimumSamples = 3\<rparr>"
proof -
  have cam: "dynamic_cast_Pinhole (Some (PinholeFamily example_camera)) = Some example_camera"
    "isValid example_camera"
    by (simp_all add: example_camera_def)
  show ?thesis
    by (subst Localize_calibrated_LO [OF cam])
       (simp add: Let_def conclude_def example_defs double_eq_def infinity_def)
qed

lemma example_calibrated_AC:
  "Localize example_env (640, 480) (Some (PinholeFamily example_camera)) example_data example_pose
     E_ACRANSAC =
     \<lparr>returned = Inr True,
      resectionData = example_data\<lparr>vec_inliers := [0, 1, 2], error_max := Finite 2,
                                    projection_matrix := example_P\<rparr>,
      pose = Pose3 identity3 (Finite 0, Finite 0, Finite (- 5)),
      calls = [Call_ACRANSAC
                 (ACKernelAdaptorResection_K P3PSolver
                    [(Finite 0, Finite 0), (Finite (- 1), Finite 0), (Finite 0, Finite 1)]
                    (pt3D example_data) identity3)
                 4096 PosInf True],
      minimumSamples = 3\<rparr>"
proof -
  have cam: "dynamic_cast_Pinhole (Some (PinholeFamily example_camera)) = Some example_camera"
    "isValid example_camera"
    by (simp_all add: example_camera_def)
  show ?thesis
    by (subst Localize_calibrated_AC [OF cam])
       (simp add: Let_def conclude_def example_defs double_eq_def infinity_def)
qed

subsection \<open>Claims\<close>

text \<open>
  C1. When \<^verbatim>\<open>Localize\<close> returns, it made one estimator call and it returns the verdict
  of the strong-support check on the resulting inliers, the descriptor types of the match
  data and the minimum sample size of the solver of that call; when it returns false the
  pose is the caller's.
\<close>

theorem Localize_true_iff_strong_support:
  assumes "returned (Localize env sz oi rd p est) = Inr b"
  shows "\<exists>c. calls (Localize env sz oi rd p est) = [c]
            \<and> vec_descType (resectionData (Localize env sz oi rd p est)) = vec_descType rd
            \<and> b = hasStrongSupport env
                    (vec_inliers (resectionData (Localize env sz oi rd p est)))
                    (vec_descType rd)
                    (MINIMUM_SAMPLES (kernel_solver (call_kernel c)))
            \<and> (\<not> b \<longrightarrow> pose (Localize env sz oi rd p est) = p)"
proof (cases "dynamic_cast_Pinhole oi = None \<or> \<not> isValid (the (dynamic_cast_Pinhole oi))")
  case True
  show ?thesis
    using assms unfolding Localize_uncalibrated [OF True]
    by (auto simp add: Let_def conclude_simps)
next
  case False
  then obtain cam where cam: "dynamic_cast_Pinhole oi = Some cam" "isValid cam"
    by (rule not_calibrated_cases)
  show ?thesis
  proof (cases est)
    case E_ACRANSAC
    show ?thesis
      using assms unfolding E_ACRANSAC Localize_calibrated_AC [OF cam]
      by (auto simp add: Let_def conclude_simps)
  next
    case E_LORANSAC
    show ?thesis
      using assms unfolding E_LORANSAC Localize_calibrated_LO [OF cam]
      by (auto simp add: Let_def conclude_simps)
  next
    case (E_Other n)
    show ?thesis
      using assms unfolding E_Other Localize_calibrated_other [OF cam] by simp
  qed
qed

theorem Localize_true_iff_strong_support_witness:
  "returned (Localize example_env (640, 480) None example_data example_pose (E_Other 2)) = Inr False
   \<and> pose (Localize example_env (640, 480) None example_data example_pose (E_Other 2)) = example_pose"
proof -
  have h: "returned (Localize example_env (640, 480) None example_data example_pose (E_Other 2))
             = Inr False"
    by (simp add: example_uncalibrated)
  from Localize_true_iff_strong_support [OF h] show ?thesis using h by blast
qed

text \<open>
  C2, as amended. With valid pinhole intrinsics an estimator other than ACRANSAC and
  LORANSAC makes the call throw before any estimator runs, the pose untouched. With
  intrinsics that are absent, not of the pinhole family or invalid, the estimator
  choice is not read: the call runs the adaptive estimator and returns.
\<close>

theorem Localize_other_estimator:
  "(calibrated oi \<longrightarrow>
      returned (Localize env sz oi rd p (E_Other n)) = Inl unsupported
      \<and> calls (Localize env sz oi rd p (E_Other n)) = []
      \<and> pose (Localize env sz oi rd p (E_Other n)) = p)
   \<and> (\<not> calibrated oi \<longrightarrow>
      (\<exists>b k it pr. returned (Localize env sz oi rd p (E_Other n)) = Inr b
         \<and> calls (Localize env sz oi rd p (E_Other n)) = [Call_ACRANSAC k it pr True]))"
proof (intro conjI impI)
  assume "calibrated oi"
  then obtain cam where cam: "dynamic_cast_Pinhole oi = Some cam" "isValid cam"
    by (rule calibratedE)
  show "returned (Localize env sz oi rd p (E_Other n)) = Inl unsupported"
    and "calls (Localize env sz oi rd p (E_Other n)) = []"
    and "pose (Localize env sz oi rd p (E_Other n)) = p"
    by (simp_all add: Localize_calibrated_other [OF cam])
next
  assume "\<not> calibrated oi"
  then have u: "dynamic_cast_Pinhole oi = None \<or> \<not> isValid (the (dynamic_cast_Pinhole oi))"
    by (simp add: calibrated_iff)
  show "\<exists>b k it pr. returned (Localize env sz oi rd p (E_Other n)) = Inr b
         \<and> calls (Localize env sz oi rd p (E_Other n)) = [Call_ACRANSAC k it pr True]"
    unfolding Localize_uncalibrated [OF u] by (simp add: Let_def conclude_simps)
qed

theorem Localize_other_estimator_witness:
  "calibrated (Some (PinholeFamily example_camera))
   \<and> returned (Localize example_env (640, 480) (Some (PinholeFamily example_camera))
        example_data example_pose (E_Other 2)) = Inl unsupported
   \<and> \<not> calibrated None
   \<and> (\<exists>b. returned (Localize example_env (640, 480) None example_data example_pose (E_Other 2))
        = Inr b)"
proof -
  have c: "calibrated (Some (PinholeFamily example_camera))"
    by (simp add: calibrated_def example_camera_def)
  have u: "\<not> calibrated None"
    by (simp add: calibrated_def)
  from Localize_other_estimator
         [of "Some (PinholeFamily example_camera)" example_env "(640, 480)" example_data
             example_pose 2]
       Localize_other_estimator [of None example_env "(640, 480)" example_data example_pose 2]
  show ?thesis using c u by blast
qed

text \<open>
  C2 as stated fails without intrinsics: with estimator number 2 the call returns
  false and throws nothing.
\<close>

theorem Localize_other_estimator_counterexample:
  "returned (Localize example_env (640, 480) None example_data example_pose (E_Other 2)) = Inr False"
  by (simp add: example_uncalibrated)

text \<open>
  C3. On the calibrated LORANSAC path an infinite error threshold is replaced by 4.0
  before the scorer is built: the scorer's threshold is computed from 4.0 and the match
  data reports 4.0. Any other threshold is kept, and the scorer is built from it.
\<close>

theorem Localize_LORANSAC_default_threshold:
  assumes "calibrated oi"
  shows "\<exists>k s. calls (Localize env sz oi rd p E_LORANSAC) = [Call_LO_RANSAC k s]
     \<and> (error_max rd = infinity \<longrightarrow>
          error_max (resectionData (Localize env sz oi rd p E_LORANSAC)) = Finite 4
          \<and> threshold s = double_times env (double_times env (Finite 4) (Finite 4))
                (double_times env (coeff00 (normalizer2 env k)) (coeff00 (normalizer2 env k))))
     \<and> (error_max rd \<noteq> infinity \<longrightarrow>
          error_max (resectionData (Localize env sz oi rd p E_LORANSAC)) = error_max rd
          \<and> threshold s = double_times env (double_times env (error_max rd) (error_max rd))
                (double_times env (coeff00 (normalizer2 env k)) (coeff00 (normalizer2 env k))))"
proof -
  from assms obtain cam where cam: "dynamic_cast_Pinhole oi = Some cam" "isValid cam"
    by (rule calibratedE)
  show ?thesis
    unfolding Localize_calibrated_LO [OF cam]
    by (simp add: Let_def conclude_simps double_eq_infinity)
qed

theorem Localize_LORANSAC_default_threshold_witness:
  "calibrated (Some (PinholeFamily example_camera))
   \<and> error_max example_data = infinity
   \<and> error_max (resectionData (Localize example_env (640, 480)
        (Some (PinholeFamily example_camera)) example_data example_pose E_LORANSAC)) = Finite 4
   \<and> error_max (example_data\<lparr>error_max := Finite 3\<rparr>) \<noteq> infinity
   \<and> error_max (resectionData (Localize example_env (640, 480)
        (Some (PinholeFamily example_camera)) (example_data\<lparr>error_max := Finite 3\<rparr>)
        example_pose E_LORANSAC)) = Finite 3"
proof -
  have c: "calibrated (Some (PinholeFamily example_camera))"
    by (simp add: calibrated_def example_camera_def)
  have i: "error_max example_data = infinity"
    by (simp add: example_data_def infinity_def)
  have f: "error_max (example_data\<lparr>error_max := Finite 3\<rparr>) \<noteq> infinity"
    by (simp add: infinity_def)
  from Localize_LORANSAC_default_threshold [OF c, of example_env "(640, 480)" example_data
         example_pose] i
  have a: "error_max (resectionData (Localize example_env (640, 480)
        (Some (PinholeFamily example_camera)) example_data example_pose E_LORANSAC)) = Finite 4"
    by blast
  from Localize_LORANSAC_default_threshold [OF c, of example_env "(640, 480)"
         "example_data\<lparr>error_max := Finite 3\<rparr>" example_pose] f
  have b: "error_max (resectionData (Localize example_env (640, 480)
        (Some (PinholeFamily example_camera)) (example_data\<lparr>error_max := Finite 3\<rparr>)
        example_pose E_LORANSAC)) = error_max (example_data\<lparr>error_max := Finite 3\<rparr>)"
    by blast
  show ?thesis using c i f a b by simp
qed

text \<open>
  C4. Without valid pinhole intrinsics the call runs ACRANSAC on the 6-point kernel
  over the original points and the image size, with minimum sample size 6, whatever the
  estimator choice, and overwrites the error threshold with the first component of what
  ACRANSAC returns. The calibrated ACRANSAC path does the same on the 3-point kernel
  with the calibration matrix, with minimum sample size 3.
\<close>

theorem Localize_adaptive_paths:
  "(\<not> calibrated oi \<longrightarrow>
      (let kernel = ACKernelAdaptorResection SixPointResectionSolver (pt2D rd) (fst sz) (snd sz)
                      (pt3D rd);
           L = Localize env sz oi rd p est
       in calls L = [Call_ACRANSAC kernel (max_iteration rd) (precision_bound env rd) True]
          \<and> minimumSamples L = 6
          \<and> error_max (resectionData L) =
              fst (snd (snd (ACRANSAC env kernel (max_iteration rd) (precision_bound env rd) True)))))
   \<and> (dynamic_cast_Pinhole oi = Some cam \<and> isValid cam \<longrightarrow>
      (let kernel = ACKernelAdaptorResection_K P3PSolver
                      (if have_disto cam then map (get_ud_pixel cam) (pt2D rd) else pt2D rd)
                      (pt3D rd) (K cam);
           L = Localize env sz oi rd p E_ACRANSAC
       in calls L = [Call_ACRANSAC kernel (max_iteration rd) (precision_bound env rd) True]
          \<and> minimumSamples L = 3
          \<and> error_max (resectionData L) =
              fst (snd (snd (ACRANSAC env kernel (max_iteration rd) (precision_bound env rd) True)))))"
proof (intro conjI impI)
  assume "\<not> calibrated oi"
  then have u: "dynamic_cast_Pinhole oi = None \<or> \<not> isValid (the (dynamic_cast_Pinhole oi))"
    by (simp add: calibrated_iff)
  show "let kernel = ACKernelAdaptorResection SixPointResectionSolver (pt2D rd) (fst sz) (snd sz)
                      (pt3D rd);
           L = Localize env sz oi rd p est
       in calls L = [Call_ACRANSAC kernel (max_iteration rd) (precision_bound env rd) True]
          \<and> minimumSamples L = 6
          \<and> error_max (resectionData L) =
              fst (snd (snd (ACRANSAC env kernel (max_iteration rd) (precision_bound env rd) True)))"
    unfolding Localize_uncalibrated [OF u]
    by (simp add: Let_def conclude_simps precision_bound_def)
next
  assume "dynamic_cast_Pinhole oi = Some cam \<and> isValid cam"
  then have cam: "dynamic_cast_Pinhole oi = Some cam" "isValid cam"
    by simp_all
  show "let kernel = ACKernelAdaptorResection_K P3PSolver
                      (if have_disto cam then map (get_ud_pixel cam) (pt2D rd) else pt2D rd)
                      (pt3D rd) (K cam);
           L = Localize env sz oi rd p E_ACRANSAC
       in calls L = [Call_ACRANSAC kernel (max_iteration rd) (precision_bound env rd) True]
          \<and> minimumSamples L = 3
          \<and> error_max (resectionData L) =
              fst (snd (snd (ACRANSAC env kernel (max_iteration rd) (precision_bound env rd) True)))"
    unfolding Localize_calibrated_AC [OF cam]
    by (simp add: Let_def conclude_simps precision_bound_def)
qed

theorem Localize_adaptive_paths_witness:
  "\<not> calibrated None
   \<and> error_max (resectionData (Localize example_env (640, 480) None example_data example_pose
        E_LORANSAC)) = Finite 2
   \<and> dynamic_cast_Pinhole (Some (PinholeFamily example_camera)) = Some example_camera
   \<and> isValid example_camera
   \<and> error_max (resectionData (Localize example_env (640, 480)
        (Some (PinholeFamily example_camera)) example_data example_pose E_ACRANSAC)) = Finite 2"
proof -
  have c: "dynamic_cast_Pinhole (Some (PinholeFamily example_camera)) = Some example_camera"
    "isValid example_camera"
    by (simp_all add: example_camera_def)
  have u: "\<not> calibrated None"
    by (simp add: calibrated_def)
  from Localize_adaptive_paths [of None example_data "(640, 480)" example_env example_pose
         E_LORANSAC] u
  have a: "error_max (resectionData (Localize example_env (640, 480) None example_data example_pose
        E_LORANSAC)) = Finite 2"
    by (simp add: Let_def example_env_def)
  from Localize_adaptive_paths [of "Some (PinholeFamily example_camera)" example_data "(640, 480)"
         example_env example_pose E_LORANSAC example_camera] c
  have b: "error_max (resectionData (Localize example_env (640, 480)
        (Some (PinholeFamily example_camera)) example_data example_pose E_ACRANSAC)) = Finite 2"
    by (simp add: Let_def example_env_def)
  show ?thesis using c u a b by simp
qed

text \<open>
  C5. No path changes the 2D or 3D points of the match data. On the calibrated path,
  for either estimator, the 2D points of the kernel are the undistorted counterparts of
  the original points when the camera has distortion, and the original points
  otherwise.
\<close>

theorem Localize_undistorts_local_copy:
  "pt2D (resectionData (Localize env sz oi rd p est)) = pt2D rd
   \<and> pt3D (resectionData (Localize env sz oi rd p est)) = pt3D rd
   \<and> (dynamic_cast_Pinhole oi = Some cam \<and> isValid cam \<and> est \<in> {E_ACRANSAC, E_LORANSAC} \<longrightarrow>
        (\<exists>c. calls (Localize env sz oi rd p est) = [c]
           \<and> kernel_pt2D (call_kernel c) =
               (if have_disto cam then map (get_ud_pixel cam) (pt2D rd) else pt2D rd)))"
proof (cases "dynamic_cast_Pinhole oi = None \<or> \<not> isValid (the (dynamic_cast_Pinhole oi))")
  case True
  then have n: "\<not> (dynamic_cast_Pinhole oi = Some cam \<and> isValid cam)" by auto
  have "pt2D (resectionData (Localize env sz oi rd p est)) = pt2D rd"
    and "pt3D (resectionData (Localize env sz oi rd p est)) = pt3D rd"
    unfolding Localize_uncalibrated [OF True]
    by (simp_all add: Let_def conclude_simps)
  with n show ?thesis by blast
next
  case False
  then obtain cam' where cam: "dynamic_cast_Pinhole oi = Some cam'" "isValid cam'"
    by (rule not_calibrated_cases)
  show ?thesis
  proof (cases est)
    case E_ACRANSAC
    show ?thesis
      unfolding E_ACRANSAC Localize_calibrated_AC [OF cam] using cam
      by (simp add: Let_def conclude_simps)
  next
    case E_LORANSAC
    show ?thesis
      unfolding E_LORANSAC Localize_calibrated_LO [OF cam] using cam
      by (simp add: Let_def conclude_simps)
  next
    case (E_Other n)
    show ?thesis
      unfolding E_Other Localize_calibrated_other [OF cam] by simp
  qed
qed

theorem Localize_undistorts_local_copy_witness:
  "dynamic_cast_Pinhole (Some (PinholeFamily example_camera)) = Some example_camera
   \<and> isValid example_camera \<and> have_disto example_camera
   \<and> E_ACRANSAC \<in> {E_ACRANSAC, E_LORANSAC}
   \<and> pt2D (resectionData (Localize example_env (640, 480) (Some (PinholeFamily example_camera))
        example_data example_pose E_ACRANSAC)) =
       [(Finite 0, Finite 0), (Finite 1, Finite 0), (Finite 0, Finite 1)]
   \<and> (\<exists>c. calls (Localize example_env (640, 480) (Some (PinholeFamily example_camera))
        example_data example_pose E_ACRANSAC) = [c]
        \<and> kernel_pt2D (call_kernel c) =
            [(Finite 0, Finite 0), (Finite (- 1), Finite 0), (Finite 0, Finite 1)])"
proof -
  have cam: "dynamic_cast_Pinhole (Some (PinholeFamily example_camera)) = Some example_camera"
    "isValid example_camera" "have_disto example_camera"
    by (simp_all add: example_camera_def)
  have m: "map (get_ud_pixel example_camera) (pt2D example_data) =
             [(Finite 0, Finite 0), (Finite (- 1), Finite 0), (Finite 0, Finite 1)]"
    "pt2D example_data = [(Finite 0, Finite 0), (Finite 1, Finite 0), (Finite 0, Finite 1)]"
    by (simp_all add: example_camera_def example_data_def)
  from Localize_undistorts_local_copy [of example_env "(640, 480)"
         "Some (PinholeFamily example_camera)" example_data example_pose E_ACRANSAC example_camera]
  show ?thesis using cam m by simp
qed

text \<open>
  C6. On the calibrated LORANSAC path the scorer's threshold is the product of the
  error threshold of the match data with itself, times the product of the coefficient
  (0, 0) of the kernel's \<^verbatim>\<open>normalizer2\<close> with itself; the inliers are those of
  \<^verbatim>\<open>LO_RANSAC\<close> on that kernel and scorer.
\<close>

theorem Localize_LORANSAC_scorer_threshold:
  assumes "calibrated oi"
  shows "\<exists>k s. calls (Localize env sz oi rd p E_LORANSAC) = [Call_LO_RANSAC k s]
     \<and> threshold s =
         double_times env
           (double_times env (error_max (resectionData (Localize env sz oi rd p E_LORANSAC)))
                      (error_max (resectionData (Localize env sz oi rd p E_LORANSAC))))
           (double_times env (coeff00 (normalizer2 env k)) (coeff00 (normalizer2 env k)))
     \<and> vec_inliers (resectionData (Localize env sz oi rd p E_LORANSAC)) = snd (LO_RANSAC env k s)"
proof -
  from assms obtain cam where cam: "dynamic_cast_Pinhole oi = Some cam" "isValid cam"
    by (rule calibratedE)
  show ?thesis
    unfolding Localize_calibrated_LO [OF cam]
    by (simp add: Let_def conclude_simps)
qed

theorem Localize_LORANSAC_scorer_threshold_witness:
  "calibrated (Some (PinholeFamily example_camera))
   \<and> (\<exists>k. calls (Localize example_env (640, 480) (Some (PinholeFamily example_camera))
              example_data example_pose E_LORANSAC) = [Call_LO_RANSAC k (ScoreEvaluator (Finite 16))])"
proof -
  have c: "calibrated (Some (PinholeFamily example_camera))"
    by (simp add: calibrated_def example_camera_def)
  from Localize_LORANSAC_scorer_threshold [OF c, of example_env "(640, 480)" example_data
         example_pose]
  obtain k s where
    "calls (Localize example_env (640, 480) (Some (PinholeFamily example_camera))
        example_data example_pose E_LORANSAC) = [Call_LO_RANSAC k s]"
    "threshold s =
       double_times example_env
         (double_times example_env
            (error_max (resectionData (Localize example_env (640, 480)
               (Some (PinholeFamily example_camera)) example_data example_pose E_LORANSAC)))
            (error_max (resectionData (Localize example_env (640, 480)
               (Some (PinholeFamily example_camera)) example_data example_pose E_LORANSAC))))
         (double_times example_env (coeff00 (normalizer2 example_env k))
                            (coeff00 (normalizer2 example_env k)))"
    by blast
  then have "calls (Localize example_env (640, 480) (Some (PinholeFamily example_camera))
        example_data example_pose E_LORANSAC) = [Call_LO_RANSAC k s]" "threshold s = Finite 16"
    by (simp_all add: example_calibrated_LO) (simp add: example_env_def identity3_def)
  then have "calls (Localize example_env (640, 480) (Some (PinholeFamily example_camera))
        example_data example_pose E_LORANSAC) = [Call_LO_RANSAC k (ScoreEvaluator (Finite 16))]"
    by (cases s) simp
  with c show ?thesis by blast
qed

text \<open>
  C7. When the call returns true, the projection matrix of the match data is the
  matrix the estimator fitted, and the pose is the rotation of its decomposition with
  the center minus the transposed rotation times the translation.
\<close>

theorem Localize_pose_from_fitted_matrix:
  assumes "returned (Localize env sz oi rd p est) = Inr True"
  shows "\<exists>c Kmat R t. calls (Localize env sz oi rd p est) = [c]
     \<and> projection_matrix (resectionData (Localize env sz oi rd p est)) = fitted env c
     \<and> KRt_From_P env (fitted env c) = (Kmat, R, t)
     \<and> pose (Localize env sz oi rd p est) = Pose3 R (product env (neg3 (transpose3 R)) t)"
proof (cases "dynamic_cast_Pinhole oi = None \<or> \<not> isValid (the (dynamic_cast_Pinhole oi))")
  case True
  show ?thesis
    using assms unfolding Localize_uncalibrated [OF True]
    by (auto simp add: Let_def conclude_simps split: prod.splits)
next
  case False
  then obtain cam where cam: "dynamic_cast_Pinhole oi = Some cam" "isValid cam"
    by (rule not_calibrated_cases)
  show ?thesis
  proof (cases est)
    case E_ACRANSAC
    show ?thesis
      using assms unfolding E_ACRANSAC Localize_calibrated_AC [OF cam]
      by (auto simp add: Let_def conclude_simps split: prod.splits)
  next
    case E_LORANSAC
    show ?thesis
      using assms unfolding E_LORANSAC Localize_calibrated_LO [OF cam]
      by (auto simp add: Let_def conclude_simps split: prod.splits)
  next
    case (E_Other n)
    show ?thesis
      using assms unfolding E_Other Localize_calibrated_other [OF cam] by simp
  qed
qed

theorem Localize_pose_from_fitted_matrix_witness:
  "returned (Localize example_env (640, 480) (Some (PinholeFamily example_camera)) example_data
      example_pose E_ACRANSAC) = Inr True
   \<and> projection_matrix (resectionData (Localize example_env (640, 480)
        (Some (PinholeFamily example_camera)) example_data example_pose E_ACRANSAC)) = example_P
   \<and> pose (Localize example_env (640, 480) (Some (PinholeFamily example_camera)) example_data
        example_pose E_ACRANSAC) = Pose3 identity3 (Finite 0, Finite 0, Finite (- 5))"
proof -
  have h: "returned (Localize example_env (640, 480) (Some (PinholeFamily example_camera))
      example_data example_pose E_ACRANSAC) = Inr True"
    by (simp add: example_calibrated_AC)
  from Localize_pose_from_fitted_matrix [OF h] obtain c Kmat R t where
    "calls (Localize example_env (640, 480) (Some (PinholeFamily example_camera)) example_data
        example_pose E_ACRANSAC) = [c]"
    "projection_matrix (resectionData (Localize example_env (640, 480)
        (Some (PinholeFamily example_camera)) example_data example_pose E_ACRANSAC)) =
       fitted example_env c"
    "KRt_From_P example_env (fitted example_env c) = (Kmat, R, t)"
    "pose (Localize example_env (640, 480) (Some (PinholeFamily example_camera)) example_data
        example_pose E_ACRANSAC) = Pose3 R (product example_env (neg3 (transpose3 R)) t)"
    by blast
  then show ?thesis using h
    by (simp add: example_calibrated_AC)
qed

section \<open>Properties of RefinePose\<close>

subsection \<open>The store\<close>

lemma fold_max_ge: "m \<le> fold max xs (m::nat)"
  by (induction xs arbitrary: m) (auto intro: order_trans [OF max.cobounded2])

lemma fold_max_upper: "a \<in> set xs \<Longrightarrow> a \<le> fold max xs (m::nat)"
proof (induction xs arbitrary: m)
  case Nil
  then show ?case by simp
next
  case (Cons y ys)
  show ?case
  proof (cases "a = y")
    case True
    have "max y m \<le> fold max ys (max y m)" by (rule fold_max_ge)
    then show ?thesis using True by simp
  next
    case False
    then show ?thesis using Cons by simp
  qed
qed

lemma fresh_notin: "fresh h \<notin> fst ` set h"
proof
  assume "fresh h \<in> fst ` set h"
  then have "fresh h \<in> set (map fst h)" by simp
  then have "fresh h \<le> fold max (map fst h) 0" by (rule fold_max_upper)
  then show False by (simp add: fresh_def)
qed

lemma fresh_not_null: "fresh h \<noteq> 0"
  by (simp add: fresh_def)

lemma update_absent: "a \<notin> fst ` set h \<Longrightarrow> AList.update a v h = h @ [(a, v)]"
  by (induction h) auto

lemma update_present_append:
  "a \<in> fst ` set h \<Longrightarrow> AList.update a v (h @ t) = AList.update a v h @ t"
  by (induction h) auto

lemma delete_last_absent: "a \<notin> fst ` set h \<Longrightarrow> AList.delete a (h @ [(a, v)]) = h"
  by (simp add: AList.delete_eq) (induction h, auto)

lemma restrict_last_absent:
  "a \<notin> fst ` set h \<Longrightarrow> AList.restrict {a} (h @ [(a, v)]) = [(a, v)]"
  by (induction h) (auto simp add: AList.restrict_eq)

lemma merge_back_last:
  "a \<notin> fst ` set h \<Longrightarrow>
     merge_back (h @ [(a, v)]) [a] hA = h @ [(a, case map_of hA a of None \<Rightarrow> v | Some w \<Rightarrow> w)]"
  by (induction h) (auto simp add: merge_back_def)

lemma map_of_append_absent: "a \<notin> fst ` set h \<Longrightarrow> map_of (h @ [(a, v)]) a = Some v"
  by (induction h) auto

lemma map_of_SomeD_fst: "map_of h p = Some v \<Longrightarrow> p \<in> fst ` set h"
  by (metis domI dom_map_of_conv_image_fst)

lemma clone_Some:
  assumes "map_of h p = Some v"
  shows "clone h p = Some (h @ [(fresh h, v)], fresh h)"
  using assms by (simp add: clone_def new_def update_absent [OF fresh_notin])

lemma clone_None: "map_of h p = None \<Longrightarrow> clone h p = None"
  by (simp add: clone_def)

subsection \<open>The structure loop and the scene\<close>

lemma structure_loop_inv:
  assumes "inliers_in_range md" "i \<le> length (vec_inliers md)"
    and "st = map (\<lambda>j. (j, landmark_of env md j)) [0..<i]"
  shows "structure_loop env md i st =
           Inr (map (\<lambda>j. (j, landmark_of env md j)) [0..<length (vec_inliers md)])"
  using assms
proof (induction env md i st rule: structure_loop.induct)
  case (1 env md i st)
  show ?case
  proof (cases "i < length (vec_inliers md)")
    case True
    let ?idx = "vec_inliers md ! i"
    have r: "?idx < length (pt3D md) \<and> ?idx < length (pt2D md)"
      using True "1.prems"(1) by (simp add: inliers_in_range_def list_all_length)
    have absent: "i \<notin> fst ` set st"
      using "1.prems"(3) by (auto simp add: image_iff)
    let ?st = "AList.update i (landmark_of env md i) st"
    have "?st = st @ [(i, landmark_of env md i)]"
      by (rule update_absent [OF absent])
    then have st': "?st = map (\<lambda>j. (j, landmark_of env md j)) [0..<Suc i]"
      using "1.prems"(3) by simp
    let ?raw = "\<lparr>X = pt3D md ! ?idx,
                 observations = AList.update 0
                   (Observation (pt2D md ! ?idx) (UndefinedIndexT env)) []\<rparr>"
    have raw: "?raw = landmark_of env md i"
      by (simp add: landmark_of_def)
    have "structure_loop env md (Suc i) (AList.update i ?raw st) =
            Inr (map (\<lambda>j. (j, landmark_of env md j)) [0..<length (vec_inliers md)])"
    proof (rule "1.IH" [OF True refl r "1.prems"(1)])
      show "Suc i \<le> length (vec_inliers md)" using True by simp
      show "AList.update i ?raw st = map (\<lambda>j. (j, landmark_of env md j)) [0..<Suc i]"
        unfolding raw by (rule st')
    qed
    then show ?thesis
      using True r by (subst structure_loop.simps) (simp add: Let_def)
  next
    case False
    then have "i = length (vec_inliers md)" using "1.prems"(2) by simp
    then show ?thesis
      using "1.prems"(3) by (subst structure_loop.simps) simp
  qed
qed

lemma structure_loop_out_of_range_aux:
  assumes "\<not> list_all (\<lambda>idx. idx < length (pt3D md) \<and> idx < length (pt2D md))
             (drop i (vec_inliers md))"
  shows "structure_loop env md i st = Inl UndefinedBehaviour"
  using assms
proof (induction env md i st rule: structure_loop.induct)
  case (1 env md i st)
  show ?case
  proof (cases "i < length (vec_inliers md)")
    case True
    let ?idx = "vec_inliers md ! i"
    show ?thesis
    proof (cases "?idx < length (pt3D md) \<and> ?idx < length (pt2D md)")
      case False
      then show ?thesis using True by (subst structure_loop.simps) (auto simp add: Let_def)
    next
      case inr: True
      have "drop i (vec_inliers md) = ?idx # drop (Suc i) (vec_inliers md)"
        using True by (simp add: Cons_nth_drop_Suc)
      then have "\<not> list_all (\<lambda>idx. idx < length (pt3D md) \<and> idx < length (pt2D md))
                     (drop (Suc i) (vec_inliers md))"
        using "1.prems" inr by simp
      then have "structure_loop env md (Suc i)
                   (AList.update i
                      \<lparr>X = pt3D md ! ?idx,
                       observations = AList.update 0
                         (Observation (pt2D md ! ?idx) (UndefinedIndexT env)) []\<rparr> st)
                 = Inl UndefinedBehaviour"
        using True inr by (intro "1.IH" [OF True refl]) simp_all
      then show ?thesis
        using True inr by (subst structure_loop.simps) (simp add: Let_def)
    qed
  next
    case False
    then show ?thesis using "1.prems" by simp
  qed
qed

lemma structure_loop_out_of_range:
  "\<not> inliers_in_range md \<Longrightarrow> structure_loop env md 0 st = Inl UndefinedBehaviour"
  by (rule structure_loop_out_of_range_aux) (simp add: inliers_in_range_def)

lemma poseId_the_view: "poseId the_view = 0"
  by (simp add: the_view_def)

lemma build_tinyScene_ok:
  assumes "map_of h p = Some v" "inliers_in_range md"
  shows "build_tinyScene env h p pose0 md =
           Inr (scene_of env (fresh h) pose0 md, h @ [(fresh h, v)], fresh h)"
  using assms
  by (simp add: build_tinyScene_def Let_def clone_Some empty_scene_def map_insert_def
        setPose_def poseId_the_view structure_loop_inv scene_of_def)

lemma build_tinyScene_fails:
  assumes "map_of h p = None \<or> \<not> inliers_in_range md"
  shows "build_tinyScene env h p pose0 md = Inl UndefinedBehaviour"
proof (cases "map_of h p")
  case None
  then show ?thesis by (simp add: build_tinyScene_def Let_def clone_None)
next
  case (Some v)
  with assms have "\<not> inliers_in_range md" by simp
  then show ?thesis
    using Some
    by (simp add: build_tinyScene_def Let_def clone_Some structure_loop_out_of_range
          empty_scene_def setPose_def)
qed

subsection \<open>The result of a call\<close>

lemma RefinePose_invalid:
  assumes "map_of h p = None \<or> \<not> inliers_in_range md"
  shows "RefinePose env h p pose0 md rp ri =
           \<lparr>outcome = Inl UndefinedBehaviour, objects = h, pose_out = pose0,
            adjusted = None, baStatus = None\<rparr>"
  by (simp add: RefinePose_def build_tinyScene_fails [OF assms])

lemma RefinePose_valid:
  assumes v: "map_of h p = Some v" and r: "inliers_in_range md"
  shows "RefinePose env h p pose0 md rp ri =
     (let a = fresh h;
          scene = scene_of env a pose0 md;
          opts = refine_mask rp ri;
          call = Some (scene, [(a, v)], opts);
          w = after_Adjust env scene a v opts
      in case Adjust env scene [(a, v)] opts of
           (status, scene', hA) \<Rightarrow>
             if \<not> status
             then \<lparr>outcome = Inr False, objects = h, pose_out = pose0,
                   adjusted = call, baStatus = Some False\<rparr>
             else (case getPose scene' the_view of
                     Inl e \<Rightarrow> \<lparr>outcome = Inl e, objects = h, pose_out = pose0,
                                adjusted = call, baStatus = Some True\<rparr>
                   | Inr cp \<Rightarrow>
                       \<lparr>outcome = Inr True,
                        objects = (if ri then AList.update p (assign env v w) h else h),
                        pose_out = getTransform cp,
                        adjusted = call, baStatus = Some True\<rparr>))"
proof -
  let ?a = "fresh h"
  have a: "?a \<notin> fst ` set h" by (rule fresh_notin)
  have p: "p \<in> fst ` set h" using v by (rule map_of_SomeD_fst)
  have pa: "p \<noteq> ?a" using a p by blast
  have reach: "reachable (scene_of env ?a pose0 md) = [?a]"
    by (simp add: reachable_def scene_of_def)
  have rel: "release (h @ [(?a, w)]) ?a = h" for w
    by (simp add: release_def delete_last_absent [OF a])
  have rel2: "release (AList.update p u (h @ [(?a, w)])) ?a = AList.update p u h" for u w
    by (simp add: release_def update_present_append [OF p] delete_last_absent a
          AList.dom_update insert_absorb [OF p])
  have mp: "map_of (h @ [(?a, w)]) p = Some v" for w
    using v by simp
  have ma: "map_of (h @ [(?a, w)]) ?a = Some w" for w
    by (rule map_of_append_absent [OF a])
  show ?thesis
    unfolding RefinePose_def build_tinyScene_ok [OF v r] call_Adjust_def
    by (simp add: Let_def reach restrict_last_absent [OF a] merge_back_last [OF a] rel rel2
          refine_mask_def after_Adjust_def mp ma del: map_of_append
          split: prod.splits sum.splits)
qed

lemma RefinePose_valid_result:
  assumes v: "map_of h p = Some v" and r: "inliers_in_range md"
    and A: "Adjust env (scene_of env (fresh h) pose0 md) [(fresh h, v)] (refine_mask rp ri) =
              (st, sc, hA)"
  shows "RefinePose env h p pose0 md rp ri =
     (if \<not> st
      then \<lparr>outcome = Inr False, objects = h, pose_out = pose0,
            adjusted = Some (scene_of env (fresh h) pose0 md, [(fresh h, v)], refine_mask rp ri),
            baStatus = Some False\<rparr>
      else (case getPose sc the_view of
              Inl e \<Rightarrow>
                \<lparr>outcome = Inl e, objects = h, pose_out = pose0,
                 adjusted = Some (scene_of env (fresh h) pose0 md, [(fresh h, v)],
                                  refine_mask rp ri),
                 baStatus = Some True\<rparr>
            | Inr cp \<Rightarrow>
                \<lparr>outcome = Inr True,
                 objects = (if ri
                            then AList.update p
                                   (assign env v
                                      (after_Adjust env (scene_of env (fresh h) pose0 md)
                                         (fresh h) v (refine_mask rp ri))) h
                            else h),
                 pose_out = getTransform cp,
                 adjusted = Some (scene_of env (fresh h) pose0 md, [(fresh h, v)],
                                  refine_mask rp ri),
                 baStatus = Some True\<rparr>))"
  unfolding RefinePose_valid [OF v r] by (simp add: Let_def A)

lemma RefinePose_builds_scene:
  assumes "map_of h p = Some v" "inliers_in_range md"
  shows "adjusted (RefinePose env h p pose0 md rp ri) =
           Some (scene_of env (fresh h) pose0 md, [(fresh h, v)], refine_mask rp ri)"
  unfolding RefinePose_valid [OF assms]
  by (simp add: Let_def split: prod.splits sum.splits)

lemma adjusted_SomeD:
  assumes "adjusted (RefinePose env h p pose0 md rp ri) = Some (scene, seen, opts)"
  obtains v where "map_of h p = Some v" "inliers_in_range md"
    "scene = scene_of env (fresh h) pose0 md" "seen = [(fresh h, v)]" "opts = refine_mask rp ri"
proof (cases "map_of h p = None \<or> \<not> inliers_in_range md")
  case True
  then show ?thesis using assms by (simp add: RefinePose_invalid)
next
  case False
  then obtain v where v: "map_of h p = Some v" and r: "inliers_in_range md" by auto
  have "adjusted (RefinePose env h p pose0 md rp ri) =
          Some (scene_of env (fresh h) pose0 md, [(fresh h, v)], refine_mask rp ri)"
    unfolding RefinePose_valid [OF v r]
    by (simp add: Let_def split: prod.splits sum.splits)
  with assms v r that show ?thesis by simp
qed

subsection \<open>The concrete refinement, evaluated\<close>

lemma example_valid:
  "map_of example_objects example_pointer = Some 100" "inliers_in_range example_matches"
  "fresh example_objects = 3"
  by (simp_all add: example_objects_def example_pointer_def example_matches_def
        example_data_def inliers_in_range_def fresh_def)

lemma example_refined:
  "RefinePose example_refiner example_objects example_pointer example_pose example_matches True True =
     \<lparr>outcome = Inr True, objects = [(1, 101), (2, 200)],
      pose_out = Pose3 identity3 (Finite 0, Finite 0, Finite (- 5)),
      adjusted = Some (scene_of example_refiner 3 example_pose example_matches, [(3, 100)],
                       {BA_REFINE_ROTATION, BA_REFINE_TRANSLATION, BA_REFINE_INTRINSICS_ALL}),
      baStatus = Some True\<rparr>"
  unfolding RefinePose_valid [OF example_valid(1,2)] example_valid(3)
  by (auto simp add: Let_def example_refiner_def getPose_def scene_of_def poseId_the_view
        after_Adjust_def refine_mask_def example_objects_def example_pointer_def)

lemma example_not_refined:
  "RefinePose example_failing_refiner example_objects example_pointer example_pose example_matches True True =
     \<lparr>outcome = Inr False, objects = example_objects, pose_out = example_pose,
      adjusted = Some (scene_of example_failing_refiner 3 example_pose example_matches,
                       [(3, 100)],
                       {BA_REFINE_ROTATION, BA_REFINE_TRANSLATION, BA_REFINE_INTRINSICS_ALL}),
      baStatus = Some False\<rparr>"
  unfolding RefinePose_valid [OF example_valid(1,2)] example_valid(3)
  by (auto simp add: Let_def example_failing_refiner_def example_refiner_def refine_mask_def)

subsection \<open>Claims\<close>

text \<open>
  C8. Every scene \<^verbatim>\<open>RefinePose\<close> hands to the refiner has one view, with id 0, one
  pose under the pose id of that view, one intrinsics entry, which points to an object
  that is not the caller's, was not in the store before and holds a copy of the state of
  the caller's object, and as many landmarks as the match data has inliers, under
  distinct keys, each with one observation, in view 0.
\<close>

theorem RefinePose_tinyScene:
  assumes "adjusted (RefinePose env h p pose0 md rp ri) = Some (scene, seen, opts)"
  shows "(\<exists>vw. views scene = [(0, vw)] \<and> viewId vw = 0
              \<and> poses scene = [(poseId vw, CameraPose pose0)])
     \<and> (\<exists>a v. intrinsics scene = [(0, a)] \<and> a \<noteq> p \<and> a \<notin> fst ` set h
              \<and> map_of h p = Some v \<and> seen = [(a, v)])
     \<and> length (structure scene) = length (vec_inliers md)
     \<and> distinct (map fst (structure scene))
     \<and> (\<forall>l \<in> snd ` set (structure scene). \<exists>ob. observations l = [(0, ob)])"
proof -
  from assms obtain v where v: "map_of h p = Some v"
    and s: "scene = scene_of env (fresh h) pose0 md" and seen: "seen = [(fresh h, v)]"
    by (rule adjusted_SomeD)
  have a: "fresh h \<notin> fst ` set h" by (rule fresh_notin)
  have p: "p \<in> fst ` set h" using v by (rule map_of_SomeD_fst)
  have pa: "fresh h \<noteq> p" using a p by blast
  have views: "\<exists>vw. views scene = [(0, vw)] \<and> viewId vw = 0
                 \<and> poses scene = [(poseId vw, CameraPose pose0)]"
    unfolding s by (simp add: scene_of_def the_view_def)
  have intr: "\<exists>a v. intrinsics scene = [(0, a)] \<and> a \<noteq> p \<and> a \<notin> fst ` set h
                 \<and> map_of h p = Some v \<and> seen = [(a, v)]"
    unfolding s seen using a pa v by (simp add: scene_of_def)
  have len: "length (structure scene) = length (vec_inliers md)"
    unfolding s by (simp add: scene_of_def)
  have dist: "distinct (map fst (structure scene))"
    unfolding s by (simp add: scene_of_def comp_def)
  have obs: "\<forall>l \<in> snd ` set (structure scene). \<exists>ob. observations l = [(0, ob)]"
    unfolding s by (auto simp add: scene_of_def landmark_of_def)
  from views intr len dist obs show ?thesis by blast
qed

theorem RefinePose_tinyScene_witness:
  "adjusted (RefinePose example_refiner example_objects example_pointer example_pose example_matches True True) =
     Some (scene_of example_refiner 3 example_pose example_matches, [(3, 100)],
           {BA_REFINE_ROTATION, BA_REFINE_TRANSLATION, BA_REFINE_INTRINSICS_ALL})
   \<and> length (structure (scene_of example_refiner 3 example_pose example_matches)) = 2
   \<and> intrinsics (scene_of example_refiner 3 example_pose example_matches) = [(0, 3)]"
proof -
  have h: "adjusted (RefinePose example_refiner example_objects example_pointer example_pose example_matches
             True True) =
     Some (scene_of example_refiner 3 example_pose example_matches, [(3, 100)],
           {BA_REFINE_ROTATION, BA_REFINE_TRANSLATION, BA_REFINE_INTRINSICS_ALL})"
    by (simp add: example_refined)
  from RefinePose_tinyScene [OF h]
  have "length (structure (scene_of example_refiner 3 example_pose example_matches)) =
          length (vec_inliers example_matches)"
    and "\<exists>a v. intrinsics (scene_of example_refiner 3 example_pose example_matches) = [(0, a)]
           \<and> [(3, 100)] = [(a, v)]"
    by blast+
  then show ?thesis using h by (auto simp add: example_matches_def)
qed

text \<open>
  C9. Unless the call runs into undefined behaviour, the store holds the same objects
  at the same addresses after the call as before. Its contents are unchanged when
  \<^verbatim>\<open>refineIntrinsic\<close> is false and when the call does not return true. When
  \<^verbatim>\<open>refineIntrinsic\<close> is true and the call returns true, the refiner had succeeded and
  the one change is at the caller's address: the state there is what \<open>assign\<close> makes
  of it and of the state of the clone after refinement.
\<close>

theorem RefinePose_intrinsics_frame:
  "(outcome (RefinePose env h p pose0 md rp ri) \<noteq> Inl UndefinedBehaviour \<longrightarrow>
      map fst (objects (RefinePose env h p pose0 md rp ri)) = map fst h)
   \<and> (outcome (RefinePose env h p pose0 md rp ri) \<noteq> Inl UndefinedBehaviour
        \<and> (\<not> ri \<or> outcome (RefinePose env h p pose0 md rp ri) \<noteq> Inr True) \<longrightarrow>
        objects (RefinePose env h p pose0 md rp ri) = h)
   \<and> (ri \<and> outcome (RefinePose env h p pose0 md rp ri) = Inr True \<longrightarrow>
        baStatus (RefinePose env h p pose0 md rp ri) = Some True
        \<and> (\<exists>scene a v opts.
              adjusted (RefinePose env h p pose0 md rp ri) = Some (scene, [(a, v)], opts)
              \<and> map_of h p = Some v
              \<and> objects (RefinePose env h p pose0 md rp ri) =
                  AList.update p (assign env v (after_Adjust env scene a v opts)) h))"
proof (cases "map_of h p = None \<or> \<not> inliers_in_range md")
  case True
  show ?thesis by (simp add: RefinePose_invalid [OF True])
next
  case False
  then obtain v where v: "map_of h p = Some v" and r: "inliers_in_range md" by auto
  have p: "p \<in> fst ` set h" using v by (rule map_of_SomeD_fst)
  have keys: "map fst (AList.update p u h) = map fst h" for u
    using p by (simp add: AList.update_keys)
  obtain st sc hA where
    A: "Adjust env (scene_of env (fresh h) pose0 md) [(fresh h, v)] (refine_mask rp ri) =
          (st, sc, hA)"
    by (cases "Adjust env (scene_of env (fresh h) pose0 md) [(fresh h, v)] (refine_mask rp ri)")
  show ?thesis
    unfolding RefinePose_valid_result [OF v r A]
    by (cases "getPose sc the_view") (simp_all add: keys v)
qed

theorem RefinePose_intrinsics_frame_witness:
  "outcome (RefinePose example_refiner example_objects example_pointer example_pose example_matches True True)
     = Inr True
   \<and> objects (RefinePose example_refiner example_objects example_pointer example_pose example_matches True True)
     = [(1, 101), (2, 200)]
   \<and> outcome (RefinePose example_failing_refiner example_objects example_pointer example_pose example_matches
        True True) \<noteq> Inr True
   \<and> objects (RefinePose example_failing_refiner example_objects example_pointer example_pose example_matches
        True True) = [(1, 100), (2, 200)]"
proof -
  have t: "outcome (RefinePose example_refiner example_objects example_pointer example_pose example_matches
             True True) = Inr True"
    by (simp add: example_refined)
  have f: "outcome (RefinePose example_failing_refiner example_objects example_pointer example_pose
             example_matches True True) \<noteq> Inr True"
    by (simp add: example_not_refined)
  from RefinePose_intrinsics_frame [of example_refiner example_objects example_pointer
         example_pose example_matches True True] t
  obtain scene a v opts where
    "adjusted (RefinePose example_refiner example_objects example_pointer example_pose example_matches True True)
       = Some (scene, [(a, v)], opts)"
    "objects (RefinePose example_refiner example_objects example_pointer example_pose example_matches True True)
       = AList.update example_pointer (assign example_refiner v (after_Adjust example_refiner scene a v opts))
           example_objects"
    by blast
  then have a: "objects (RefinePose example_refiner example_objects example_pointer example_pose
                  example_matches True True) = [(1, 101), (2, 200)]"
    by (simp add: example_refined)
  have n: "outcome (RefinePose example_failing_refiner example_objects example_pointer
             example_pose example_matches True True) \<noteq> Inl UndefinedBehaviour"
    by (simp add: example_not_refined)
  from RefinePose_intrinsics_frame [of example_failing_refiner example_objects example_pointer
         example_pose example_matches True True] f n
  have b: "objects (RefinePose example_failing_refiner example_objects example_pointer example_pose
             example_matches True True) = example_objects"
    by blast
  show ?thesis using t f a b by (simp add: example_objects_def)
qed

text \<open>
  C10. If the refiner reports failure, the call returns false, the pose is the
  caller's and the store is as it was.
\<close>

theorem RefinePose_failure_leaves_state:
  assumes "baStatus (RefinePose env h p pose0 md rp ri) = Some False"
  shows "outcome (RefinePose env h p pose0 md rp ri) = Inr False
     \<and> pose_out (RefinePose env h p pose0 md rp ri) = pose0
     \<and> objects (RefinePose env h p pose0 md rp ri) = h"
proof (cases "map_of h p = None \<or> \<not> inliers_in_range md")
  case True
  then show ?thesis using assms by (simp add: RefinePose_invalid)
next
  case False
  then obtain v where v: "map_of h p = Some v" and r: "inliers_in_range md" by auto
  obtain st sc hA where
    A: "Adjust env (scene_of env (fresh h) pose0 md) [(fresh h, v)] (refine_mask rp ri) = (st, sc, hA)"
    by (cases "Adjust env (scene_of env (fresh h) pose0 md) [(fresh h, v)] (refine_mask rp ri)")
  show ?thesis
    using assms unfolding RefinePose_valid_result [OF v r A]
    by (cases "getPose sc the_view") (simp_all split: if_splits)
qed

theorem RefinePose_failure_leaves_state_witness:
  "baStatus (RefinePose example_failing_refiner example_objects example_pointer example_pose example_matches
      True True) = Some False
   \<and> outcome (RefinePose example_failing_refiner example_objects example_pointer example_pose example_matches
      True True) = Inr False
   \<and> pose_out (RefinePose example_failing_refiner example_objects example_pointer example_pose example_matches
      True True) = example_pose
   \<and> objects (RefinePose example_failing_refiner example_objects example_pointer example_pose example_matches
      True True) = [(1, 100), (2, 200)]"
proof -
  have h: "baStatus (RefinePose example_failing_refiner example_objects example_pointer example_pose
             example_matches True True) = Some False"
    by (simp add: example_not_refined)
  from RefinePose_failure_leaves_state [OF h] show ?thesis
    using h by (simp add: example_objects_def)
qed

end
